theory Spec2Isabelle
  imports Complex_Main
begin

section \<open>Similarity engine: \<open>calculateCosineSimilarity\<close>\<close>

text \<open>
  The edge function \<^verbatim>\<open>match-resumes/index.ts\<close> works on JavaScript numbers. They are
  modelled as \<^typ>\<open>real\<close>: sums, products, quotients and square roots are exact, and the
  rounding of IEEE doubles is outside the model. A \<^verbatim>\<open>number[]\<close> is a \<^typ>\<open>real list\<close>.

  The \<^verbatim>\<open>for\<close> loop of \<^verbatim>\<open>calculateCosineSimilarity\<close> runs an index over \<^verbatim>\<open>vec1\<close> and updates
  the three accumulators \<^verbatim>\<open>dotProduct\<close>, \<^verbatim>\<open>magnitude1\<close>, \<^verbatim>\<open>magnitude2\<close>. The loop is only
  reached when both arrays have the same length, so every read is in range.
\<close>

function cosine_loop :: "real list \<Rightarrow> real list \<Rightarrow> nat \<Rightarrow> real \<times> real \<times> real \<Rightarrow> real \<times> real \<times> real" where
  "cosine_loop vec1 vec2 i (dotProduct, magnitude1, magnitude2) =
     (if i < length vec1
      then cosine_loop vec1 vec2 (i + 1)
             (dotProduct + vec1 ! i * vec2 ! i,
              magnitude1 + vec1 ! i * vec1 ! i,
              magnitude2 + vec2 ! i * vec2 ! i)
      else (dotProduct, magnitude1, magnitude2))"
  by pat_completeness auto
termination
  by (relation "measure (\<lambda>(vec1, vec2, i, acc). length vec1 - i)") auto

declare cosine_loop.simps [simp del]

definition calculateCosineSimilarity :: "real list \<Rightarrow> real list \<Rightarrow> real" where
  "calculateCosineSimilarity vec1 vec2 =
     (if length vec1 \<noteq> length vec2 then 0
      else
        (case cosine_loop vec1 vec2 0 (0, 0, 0) of
           (dotProduct, m1, m2) \<Rightarrow>
             (let magnitude1 = sqrt m1; magnitude2 = sqrt m2
              in if magnitude1 = 0 \<or> magnitude2 = 0 then 0
                 else dotProduct / (magnitude1 * magnitude2))))"

text \<open>The quantities the contract of the similarity engine names.\<close>

definition dot_product :: "real list \<Rightarrow> real list \<Rightarrow> real" where
  "dot_product v w = (\<Sum>i<length v. v ! i * w ! i)"

definition euclidean_magnitude :: "real list \<Rightarrow> real" where
  "euclidean_magnitude v = sqrt (\<Sum>x\<leftarrow>v. x\<^sup>2)"

section \<open>Embedding service: \<open>generateEmbedding\<close> and \<open>generateFallbackEmbedding\<close>\<close>

text \<open>
  A JavaScript string is a sequence of UTF-16 code units. The model takes the strings whose
  code units are below 256 (ASCII and Latin-1), as \<^typ>\<open>string\<close>: \<open>of_char c\<close> is what
  \<^verbatim>\<open>charCodeAt\<close> returns. On these strings \<^verbatim>\<open>toLowerCase\<close> moves A-Z and the Latin-1
  capitals (U+00C0-U+00DE without the multiplication sign U+00D7) up by 32 and keeps every
  other code unit, and the whitespace class of regular expressions holds tab, line feed,
  vertical tab, form feed, carriage return, space and the no-break space.
\<close>

definition charCode :: "char \<Rightarrow> nat" where
  "charCode c = of_char c"

definition toLowerCase_char :: "char \<Rightarrow> char" where
  "toLowerCase_char c =
     (let n = charCode c
      in if (65 \<le> n \<and> n \<le> 90) \<or> (192 \<le> n \<and> n \<le> 214) \<or> (216 \<le> n \<and> n \<le> 222)
         then char_of (n + 32) else c)"

definition toLowerCase :: "string \<Rightarrow> string" where
  "toLowerCase text = map toLowerCase_char text"

definition is_whitespace :: "char \<Rightarrow> bool" where
  "is_whitespace c = (charCode c \<in> {9, 10, 11, 12, 13, 32, 160})"

text \<open>
  \<^verbatim>\<open>split\<close> on the regular expression for one or more whitespace characters: every
  maximal run of whitespace is one separator. A separator at
  the start or the end of the text leaves an empty string there, and the empty text gives
  the one-element array holding the empty string. \<open>in_sep\<close> says that the last code unit
  read was whitespace, \<open>cur\<close> is the piece being read.
\<close>

fun split_go :: "bool \<Rightarrow> string \<Rightarrow> string \<Rightarrow> string list" where
  "split_go in_sep cur [] = [cur]"
| "split_go in_sep cur (c # cs) =
     (if is_whitespace c
      then (if in_sep then split_go True cur cs else cur # split_go True [] cs)
      else split_go False (cur @ [c]) cs)"

definition split_whitespace :: "string \<Rightarrow> string list" where
  "split_whitespace text = split_go False [] text"

text \<open>
  The two nested \<^verbatim>\<open>for\<close> loops of \<^verbatim>\<open>generateFallbackEmbedding\<close>. The inner one walks the
  characters of \<^verbatim>\<open>words[i]\<close> and adds to the slot \<^verbatim>\<open>(i + j) % embedding.length\<close>; the outer
  one stops at the end of \<^verbatim>\<open>words\<close> or of \<^verbatim>\<open>embedding\<close>, whichever comes first.
\<close>

function char_loop :: "string \<Rightarrow> nat \<Rightarrow> nat \<Rightarrow> real list \<Rightarrow> real list" where
  "char_loop word i j embedding =
     (if j < length word
      then char_loop word i (j + 1)
             (embedding[(i + j) mod length embedding :=
                embedding ! ((i + j) mod length embedding) + real (charCode (word ! j)) / 1000])
      else embedding)"
  by pat_completeness auto
termination
  by (relation "measure (\<lambda>(word, i, j, embedding). length word - j)") auto

declare char_loop.simps [simp del]

function word_loop :: "string list \<Rightarrow> nat \<Rightarrow> real list \<Rightarrow> real list" where
  "word_loop words i embedding =
     (if i < length words \<and> i < length embedding
      then word_loop words (i + 1) (char_loop (words ! i) i 0 embedding)
      else embedding)"
  by pat_completeness auto
termination
  by (relation "measure (\<lambda>(words, i, embedding). length words - i)") auto

declare word_loop.simps [simp del]

text \<open>The vector before normalisation: \<^verbatim>\<open>embedding\<close> when the outer loop has ended.\<close>

definition fallback_accumulate :: "string \<Rightarrow> real list" where
  "fallback_accumulate text =
     (let words = split_whitespace (toLowerCase text);
          embedding = replicate 384 0
      in word_loop words 0 embedding)"

definition generateFallbackEmbedding :: "string \<Rightarrow> real list" where
  "generateFallbackEmbedding text =
     (let embedding = fallback_accumulate text;
          magnitude = sqrt (foldl (\<lambda>sum val. sum + val * val) 0 embedding)
      in map (\<lambda>val. if magnitude > 0 then val / magnitude else 0) embedding)"

text \<open>
  An exception is a value: \<open>Error msg\<close> is an instance of the JavaScript class \<^verbatim>\<open>Error\<close>
  with that message, \<open>NonError\<close> any other thrown value. A call that may throw returns
  \<open>Inl\<close> of what it throws.

  \<^verbatim>\<open>generateEmbedding\<close> calls the model \<^verbatim>\<open>gte-small\<close> of the edge runtime, which the
  repository does not hold: the call is the parameter \<open>model_run\<close>, the result of
  \<^verbatim>\<open>new Supabase.ai.Session('gte-small')\<close> followed by \<^verbatim>\<open>model.run(text, ...)\<close>. The
  \<^verbatim>\<open>try\<close>/\<^verbatim>\<open>catch\<close> around both turns every exception into the fallback.
\<close>

datatype js_error = Error string | NonError

definition generateEmbedding :: "(string \<Rightarrow> js_error + real list) \<Rightarrow> string \<Rightarrow> js_error + real list" where
  "generateEmbedding model_run text =
     (case model_run text of
        Inr embedding \<Rightarrow> Inr embedding
      | Inl error \<Rightarrow> Inr (generateFallbackEmbedding text))"

text \<open>
  The reference algorithm as the specification words it: the words of the text as split on
  whitespace; every word at index \<open>i\<close> below the vector length and every character at
  index \<open>j\<close> of it adds its code divided by 1000 to slot \<open>(i + j) mod 384\<close>; then every
  component is divided by the Euclidean magnitude, unless that is 0.
\<close>

definition spec_slot :: "string list \<Rightarrow> nat \<Rightarrow> real" where
  "spec_slot words k =
     (\<Sum>i<min (length words) 384. \<Sum>j<length (words ! i).
        if (i + j) mod 384 = k then real (charCode (words ! i ! j)) / 1000 else 0)"

definition spec_fallback_embedding :: "string \<Rightarrow> real list" where
  "spec_fallback_embedding text =
     (let words = split_whitespace text;
          v = map (spec_slot words) [0..<384];
          m = euclidean_magnitude v
      in if m = 0 then v else map (\<lambda>x. x / m) v)"

text \<open>
  Two texts differ only in ASCII letter case when they have the same length and, position
  by position, hold the same code unit or the two cases of one letter A-Z.
\<close>

definition ascii_case_variant :: "char \<Rightarrow> char \<Rightarrow> bool" where
  "ascii_case_variant a b =
     (a = b \<or>
      (65 \<le> charCode a \<and> charCode a \<le> 90 \<and> charCode b = charCode a + 32) \<or>
      (65 \<le> charCode b \<and> charCode b \<le> 90 \<and> charCode a = charCode b + 32))"

definition differ_only_in_ascii_case :: "string \<Rightarrow> string \<Rightarrow> bool" where
  "differ_only_in_ascii_case s t = list_all2 ascii_case_variant s t"

section \<open>Match orchestrator: the handler of \<open>match-resumes\<close>\<close>

text \<open>
  The rows the handler reads. A nullable column is an \<open>option\<close>. An \<^verbatim>\<open>embedding\<close> value is
  an array (what \<^verbatim>\<open>generateEmbedding\<close> returned in this run) or a string (the text form in
  which the store returns a \<^verbatim>\<open>vector(384)\<close> column), which the handler gives to
  \<^verbatim>\<open>JSON.parse\<close>. Truthiness is JavaScript's: \<^verbatim>\<open>null\<close> and the empty string are falsy,
  every array is truthy.
\<close>

datatype embedding_value = EArray "real list" | EString string

fun truthy_embedding :: "embedding_value option \<Rightarrow> bool" where
  "truthy_embedding None = False"
| "truthy_embedding (Some (EArray v)) = True"
| "truthy_embedding (Some (EString s)) = (s \<noteq> [])"

fun truthy_text :: "string option \<Rightarrow> bool" where
  "truthy_text None = False"
| "truthy_text (Some s) = (s \<noteq> [])"

record job_row =
  j_description_text :: "string option"
  j_embedding :: "embedding_value option"

record resume_row =
  r_id :: string
  r_candidate_name :: "string option"
  r_file_name :: string
  r_resume_text :: "string option"
  r_embedding :: "embedding_value option"
  r_status :: "string option"

text \<open>The object given to \<^verbatim>\<open>upsert\<close> and the object pushed on \<^verbatim>\<open>matches\<close>.\<close>

record match_row =
  job_id :: string
  resume_id :: string
  similarity_score :: real
  is_match :: bool
  details_threshold :: real
  details_processed_at :: string

record match_entry =
  m_resume_id :: string
  m_candidate_name :: "string option"
  m_file_name :: string
  m_similarity_score :: real

text \<open>
  What the handler does to the outside, in the order it does it. The store's answer to a
  write is not read by the handler (the upsert's) or only logged (the embedding update's),
  so a write is recorded as issued.
\<close>

datatype effect =
    GenerateEmbedding string
  | UpdateJobEmbedding string "real list"
  | UpdateResumeEmbedding string "real list"
  | UpsertMatch match_row

text \<open>
  What the handler reads from the outside: the two \<^verbatim>\<open>select\<close> queries (\<open>select_job\<close> is
  \<open>None\<close> when the query has an error or no row), the embedding model, \<^verbatim>\<open>JSON.parse\<close> on
  the text form of a vector, and the clock read for \<^verbatim>\<open>processed_at\<close> while a resume is
  processed.
\<close>

record env =
  select_job :: "string \<Rightarrow> job_row option"
  select_resumes :: "string \<Rightarrow> js_error + resume_row list"
  model_run :: "string \<Rightarrow> js_error + real list"
  JSON_parse :: "string \<Rightarrow> js_error + real list"
  clock :: "string \<Rightarrow> string"

record MatchRequest =
  jobId :: string
  threshold :: "real option"

datatype 'a http_request = OPTIONS | POST "js_error + 'a"

record loop_state =
  effects :: "effect list"
  matches :: "match_entry list"

fun to_vector :: "env \<Rightarrow> embedding_value \<Rightarrow> js_error + real list" where
  "to_vector e (EArray v) = Inr v"
| "to_vector e (EString s) = JSON_parse e s"

text \<open>
  One round of the \<^verbatim>\<open>for ... of\<close> loop. The result is the exception that leaves the loop,
  if any, and the state reached.
\<close>

definition resume_embedding :: "env \<Rightarrow> resume_row \<Rightarrow> loop_state \<Rightarrow> (js_error + embedding_value option) \<times> loop_state" where
  "resume_embedding e resume st =
     (case r_resume_text resume of
        None \<Rightarrow> (Inr (r_embedding resume), st)
      | Some text \<Rightarrow>
          if \<not> truthy_embedding (r_embedding resume) \<and> text \<noteq> []
          then
            (case generateEmbedding (model_run e) text of
               Inl err \<Rightarrow> (Inl err, st\<lparr>effects := effects st @ [GenerateEmbedding text]\<rparr>)
             | Inr v \<Rightarrow>
                 (Inr (Some (EArray v)),
                  st\<lparr>effects := effects st @
                       [GenerateEmbedding text, UpdateResumeEmbedding (r_id resume) v]\<rparr>))
          else (Inr (r_embedding resume), st))"

definition score_resume :: "env \<Rightarrow> string \<Rightarrow> real \<Rightarrow> embedding_value \<Rightarrow> embedding_value \<Rightarrow> resume_row \<Rightarrow> loop_state \<Rightarrow> js_error option \<times> loop_state" where
  "score_resume e jid thr jobEmbedding resumeEmbedding resume st =
     (case to_vector e jobEmbedding of
        Inl err \<Rightarrow> (Some err, st)
      | Inr vec1 \<Rightarrow>
          (case to_vector e resumeEmbedding of
             Inl err \<Rightarrow> (Some err, st)
           | Inr vec2 \<Rightarrow>
               (let similarity = calculateCosineSimilarity vec1 vec2;
                    isMatch = (similarity \<ge> thr);
                    st' = st\<lparr>effects := effects st @
                           [UpsertMatch \<lparr>job_id = jid, resume_id = r_id resume,
                              similarity_score = similarity, is_match = isMatch,
                              details_threshold = thr,
                              details_processed_at = clock e (r_id resume)\<rparr>]\<rparr>
                in (None,
                    if isMatch
                    then st'\<lparr>matches := matches st' @
                           [\<lparr>m_resume_id = r_id resume,
                             m_candidate_name = r_candidate_name resume,
                             m_file_name = r_file_name resume,
                             m_similarity_score = similarity\<rparr>]\<rparr>
                    else st'))))"

definition process_resume :: "env \<Rightarrow> string \<Rightarrow> real \<Rightarrow> embedding_value option \<Rightarrow> resume_row \<Rightarrow> loop_state \<Rightarrow> js_error option \<times> loop_state" where
  "process_resume e jid thr jobEmbedding resume st =
     (if \<not> truthy_text (r_resume_text resume) \<and> r_status resume \<noteq> Some ''completed''
      then (None, st)
      else
        (case resume_embedding e resume st of
           (Inl err, st1) \<Rightarrow> (Some err, st1)
         | (Inr resumeEmbedding, st1) \<Rightarrow>
             (case (jobEmbedding, resumeEmbedding) of
                (Some je, Some re) \<Rightarrow>
                  if truthy_embedding jobEmbedding \<and> truthy_embedding resumeEmbedding
                  then score_resume e jid thr je re resume st1
                  else (None, st1)
              | _ \<Rightarrow> (None, st1))))"

fun match_loop :: "env \<Rightarrow> string \<Rightarrow> real \<Rightarrow> embedding_value option \<Rightarrow> resume_row list \<Rightarrow> loop_state \<Rightarrow> js_error option \<times> loop_state" where
  "match_loop e jid thr jobEmbedding [] st = (None, st)"
| "match_loop e jid thr jobEmbedding (resume # rest) st =
     (case process_resume e jid thr jobEmbedding resume st of
        (Some err, st') \<Rightarrow> (Some err, st')
      | (None, st') \<Rightarrow> match_loop e jid thr jobEmbedding rest st')"

text \<open>
  \<^verbatim>\<open>Array.prototype.sort\<close> with a comparator. The language standard requires the sort to
  be stable, and with a comparator that orders the elements consistently the result is
  then determined; it is computed here by insertion, an element going before the first
  one that the comparator does not put ahead of it.
\<close>

fun insert_by :: "('a \<Rightarrow> 'a \<Rightarrow> real) \<Rightarrow> 'a \<Rightarrow> 'a list \<Rightarrow> 'a list" where
  "insert_by cmp x [] = [x]"
| "insert_by cmp x (y # ys) = (if cmp x y \<le> 0 then x # y # ys else y # insert_by cmp x ys)"

fun Array_sort :: "('a \<Rightarrow> 'a \<Rightarrow> real) \<Rightarrow> 'a list \<Rightarrow> 'a list" where
  "Array_sort cmp [] = []"
| "Array_sort cmp (x # xs) = insert_by cmp x (Array_sort cmp xs)"

record match_summary =
  resp_job_id :: string
  resp_total_resumes :: nat
  resp_matched_resumes :: nat
  resp_threshold :: real
  resp_matches :: "match_entry list"

datatype match_response = Preflight | Success match_summary | Failure string

fun error_message :: "js_error \<Rightarrow> string" where
  "error_message (Error msg) = msg"
| "error_message NonError = ''Unknown error''"

text \<open>The job's embedding: the cached one, or a new one written through to the store.\<close>

definition job_embedding :: "env \<Rightarrow> string \<Rightarrow> job_row \<Rightarrow> (js_error + embedding_value option) \<times> effect list" where
  "job_embedding e jid job =
     (case j_description_text job of
        None \<Rightarrow> (Inr (j_embedding job), [])
      | Some text \<Rightarrow>
          if \<not> truthy_embedding (j_embedding job) \<and> text \<noteq> []
          then
            (case generateEmbedding (model_run e) text of
               Inl err \<Rightarrow> (Inl err, [GenerateEmbedding text])
             | Inr v \<Rightarrow> (Inr (Some (EArray v)), [GenerateEmbedding text, UpdateJobEmbedding jid v]))
          else (Inr (j_embedding job), []))"

text \<open>The body of the \<^verbatim>\<open>try\<close> block: the summary, or the exception the \<^verbatim>\<open>catch\<close> receives.\<close>

definition match_run :: "env \<Rightarrow> js_error + MatchRequest \<Rightarrow> (js_error + match_summary) \<times> effect list" where
  "match_run e body =
     (case body of
        Inl err \<Rightarrow> (Inl err, [])
      | Inr rq \<Rightarrow>
          (let thr = (case threshold rq of None \<Rightarrow> 0.6 | Some t \<Rightarrow> t)
           in case select_job e (jobId rq) of
                None \<Rightarrow> (Inl (Error ''Job not found''), [])
              | Some job \<Rightarrow>
                  (case job_embedding e (jobId rq) job of
                     (Inl err, effs) \<Rightarrow> (Inl err, effs)
                   | (Inr jobEmbedding, effs) \<Rightarrow>
                       (case select_resumes e (jobId rq) of
                          Inl err \<Rightarrow> (Inl err, effs)
                        | Inr resumes \<Rightarrow>
                            (case match_loop e (jobId rq) thr jobEmbedding resumes
                                    \<lparr>effects = effs, matches = []\<rparr> of
                               (Some err, st) \<Rightarrow> (Inl err, effects st)
                             | (None, st) \<Rightarrow>
                                 (let sorted_matches =
                                        Array_sort (\<lambda>a b. m_similarity_score b - m_similarity_score a)
                                          (matches st)
                                  in (Inr \<lparr>resp_job_id = jobId rq,
                                           resp_total_resumes = length resumes,
                                           resp_matched_resumes = length sorted_matches,
                                           resp_threshold = thr,
                                           resp_matches = sorted_matches\<rparr>,
                                      effects st)))))))"

definition Deno_serve_match :: "env \<Rightarrow> MatchRequest http_request \<Rightarrow> match_response \<times> effect list" where
  "Deno_serve_match e req =
     (case req of
        OPTIONS \<Rightarrow> (Preflight, [])
      | POST body \<Rightarrow>
          (case match_run e body of
             (Inl err, effs) \<Rightarrow> (Failure (error_message err), effs)
           | (Inr summary, effs) \<Rightarrow> (Success summary, effs)))"

text \<open>The rows given to \<^verbatim>\<open>upsert\<close> among the effects of a run, in the order issued.\<close>

fun upserts :: "effect list \<Rightarrow> match_row list" where
  "upserts [] = []"
| "upserts (UpsertMatch row # effs) = row # upserts effs"
| "upserts (other # effs) = upserts effs"

text \<open>
  The similarity a round of the loop computes for a resume, read off the round without
  its state: none when the guard skips the resume or an embedding is missing, otherwise
  the cosine of the job's vector and the resume's, the resume's embedding being the
  cached one or, without a cached one, the one generated from its text. The scored
  resumes of a run are the loaded resumes that have a similarity, in load order;
  \<open>upsert_row\<close> and \<open>entry_of\<close> are the row upserted and the entry listed for one.
\<close>

definition resume_similarity :: "env \<Rightarrow> embedding_value option \<Rightarrow> resume_row \<Rightarrow> real option" where
  "resume_similarity e jobEmbedding resume =
     (if \<not> truthy_text (r_resume_text resume) \<and> r_status resume \<noteq> Some ''completed''
      then None
      else
        (let resumeEmbedding =
               (case r_resume_text resume of
                  None \<Rightarrow> r_embedding resume
                | Some text \<Rightarrow>
                    if \<not> truthy_embedding (r_embedding resume) \<and> text \<noteq> []
                    then (case generateEmbedding (model_run e) text of
                            Inl err \<Rightarrow> None
                          | Inr v \<Rightarrow> Some (EArray v))
                    else r_embedding resume)
         in case (jobEmbedding, resumeEmbedding) of
              (Some je, Some re) \<Rightarrow>
                if truthy_embedding jobEmbedding \<and> truthy_embedding resumeEmbedding
                then (case (to_vector e je, to_vector e re) of
                        (Inr vec1, Inr vec2) \<Rightarrow> Some (calculateCosineSimilarity vec1 vec2)
                      | _ \<Rightarrow> None)
                else None
            | _ \<Rightarrow> None))"

definition scored_resumes :: "env \<Rightarrow> embedding_value option \<Rightarrow> resume_row list \<Rightarrow> (resume_row \<times> real) list" where
  "scored_resumes e jobEmbedding resumes =
     concat (map (\<lambda>resume. case resume_similarity e jobEmbedding resume of
                              None \<Rightarrow> []
                            | Some similarity \<Rightarrow> [(resume, similarity)]) resumes)"

definition upsert_row :: "env \<Rightarrow> string \<Rightarrow> real \<Rightarrow> resume_row \<times> real \<Rightarrow> match_row" where
  "upsert_row e jid thr = (\<lambda>(resume, similarity).
     \<lparr>job_id = jid, resume_id = r_id resume, similarity_score = similarity,
      is_match = (similarity \<ge> thr), details_threshold = thr,
      details_processed_at = clock e (r_id resume)\<rparr>)"

definition entry_of :: "resume_row \<times> real \<Rightarrow> match_entry" where
  "entry_of = (\<lambda>(resume, similarity).
     \<lparr>m_resume_id = r_id resume, m_candidate_name = r_candidate_name resume,
      m_file_name = r_file_name resume, m_similarity_score = similarity\<rparr>)"

section \<open>Text extractor: the handler of \<open>parse-document\<close>\<close>

text \<open>
  \<^verbatim>\<open>cleanText\<close>: every code unit that is neither printable ASCII nor whitespace becomes a
  space, every run of whitespace becomes one space, every run of line feeds becomes one
  space, and the ends are trimmed.
\<close>

fun replace_runs :: "(char \<Rightarrow> bool) \<Rightarrow> bool \<Rightarrow> string \<Rightarrow> string" where
  "replace_runs p in_run [] = []"
| "replace_runs p in_run (c # cs) =
     (if p c then (if in_run then replace_runs p True cs else CHR '' '' # replace_runs p True cs)
      else c # replace_runs p False cs)"

definition trim :: "string \<Rightarrow> string" where
  "trim text = rev (dropWhile is_whitespace (rev (dropWhile is_whitespace text)))"

definition cleanText :: "string \<Rightarrow> string" where
  "cleanText text =
     trim (replace_runs (\<lambda>c. charCode c = 10) False
       (replace_runs is_whitespace False
         (map (\<lambda>c. if (32 \<le> charCode c \<and> charCode c \<le> 126) \<or> is_whitespace c then c
                    else CHR '' '') text)))"

text \<open>
  The download (\<^verbatim>\<open>fetch\<close> and \<^verbatim>\<open>arrayBuffer\<close>), the decoders and the store are outside the
  repository and are parameters. \<^verbatim>\<open>parsePDF\<close> and \<^verbatim>\<open>parseDOCX\<close> run the libraries
  \<^verbatim>\<open>pdf-parse\<close> and \<^verbatim>\<open>jszip\<close> inside a \<^verbatim>\<open>try\<close> whose \<^verbatim>\<open>catch\<close> returns a string, so each
  is a function from the buffer to a string. \<open>update_document\<close> is the \<^verbatim>\<open>error\<close> field of
  the store's answer to the update.
\<close>

type_synonym buffer = "nat list"

record document_update =
  table_name :: string
  update_field :: string
  document_id :: string
  text_value :: string
  new_status :: string
  updated_at :: string

record parse_env =
  fetch :: "string \<Rightarrow> js_error + buffer"
  TextDecoder_decode :: "buffer \<Rightarrow> string"
  parsePDF :: "buffer \<Rightarrow> string"
  parseDOCX :: "buffer \<Rightarrow> string"
  update_document :: "document_update \<Rightarrow> js_error option"
  parse_clock :: "string \<Rightarrow> string"

record ParseRequest =
  fileUrl :: string
  fileType :: string
  documentId :: string
  documentType :: string

datatype parse_response = ParsePreflight | ParseSuccess string nat | ParseFailure string

definition extract_text :: "parse_env \<Rightarrow> string \<Rightarrow> buffer \<Rightarrow> js_error + string" where
  "extract_text e ftype buf =
     (if ftype = ''txt'' \<or> ftype = ''text/plain'' then Inr (TextDecoder_decode e buf)
      else if ftype = ''pdf'' \<or> ftype = ''application/pdf'' then Inr (parsePDF e buf)
      else if ftype = ''docx'' \<or>
              ftype = ''application/vnd.openxmlformats-officedocument.wordprocessingml.document''
           then Inr (parseDOCX e buf)
      else if ftype = ''doc'' \<or> ftype = ''application/msword''
           then Inr ''Legacy DOC format - please convert to DOCX or PDF''
      else Inl (Error (''Unsupported file type: '' @ ftype)))"

text \<open>The body of the \<^verbatim>\<open>try\<close> block, with the updates it has issued.\<close>

definition parse_run :: "parse_env \<Rightarrow> js_error + ParseRequest \<Rightarrow> (js_error + string) \<times> document_update list" where
  "parse_run e body =
     (case body of
        Inl err \<Rightarrow> (Inl err, [])
      | Inr rq \<Rightarrow>
          (case fetch e (fileUrl rq) of
             Inl err \<Rightarrow> (Inl err, [])
           | Inr buf \<Rightarrow>
               (case extract_text e (fileType rq) buf of
                  Inl err \<Rightarrow> (Inl err, [])
                | Inr extractedText \<Rightarrow>
                    (let cleanedText = cleanText extractedText;
                         tableName = (if documentType rq = ''job'' then ''jobs'' else ''resumes'');
                         updateField = (if documentType rq = ''job'' then ''description_text''
                                        else ''resume_text'');
                         upd = \<lparr>table_name = tableName, update_field = updateField,
                                document_id = documentId rq, text_value = cleanedText,
                                new_status = ''completed'',
                                updated_at = parse_clock e (documentId rq)\<rparr>
                     in case update_document e upd of
                          Some err \<Rightarrow> (Inl err, [upd])
                        | None \<Rightarrow> (Inr cleanedText, [upd])))))"

definition Deno_serve_parse :: "parse_env \<Rightarrow> ParseRequest http_request \<Rightarrow> parse_response \<times> document_update list" where
  "Deno_serve_parse e req =
     (case req of
        OPTIONS \<Rightarrow> (ParsePreflight, [])
      | POST body \<Rightarrow>
          (case parse_run e body of
             (Inl err, upds) \<Rightarrow> (ParseFailure (error_message err), upds)
           | (Inr cleanedText, upds) \<Rightarrow> (ParseSuccess cleanedText (length cleanedText), upds)))"

text \<open>The file types the extractor has a rule for: txt, pdf, docx and legacy doc.\<close>

definition recognized_file_types :: "string set" where
  "recognized_file_types =
     {''txt'', ''text/plain'', ''pdf'', ''application/pdf'', ''docx'',
      ''application/vnd.openxmlformats-officedocument.wordprocessingml.document'',
      ''doc'', ''application/msword''}"

section \<open>Concrete inputs\<close>

text \<open>A request to extract an image, and a world in which the download succeeds.\<close>

definition png_env :: parse_env where
  "png_env = \<lparr>fetch = (\<lambda>url. Inr [137, 80, 78, 71]), TextDecoder_decode = (\<lambda>b. []),
     parsePDF = (\<lambda>b. []), parseDOCX = (\<lambda>b. []), update_document = (\<lambda>u. None),
     parse_clock = (\<lambda>d. ''2026-01-01T00:00:00.000Z'')\<rparr>"

definition png_request :: ParseRequest where
  "png_request = \<lparr>fileUrl = ''https://files.example/cv.png'', fileType = ''image/png'',
     documentId = ''r1'', documentType = ''resume''\<rparr>"

text \<open>
  Three vectors of 384 components and the texts in which the store returns them.
\<close>

definition unit_vector :: "real list" where
  "unit_vector = 1 # replicate 383 0"

definition opposite_vector :: "real list" where
  "opposite_vector = - 1 # replicate 383 0"

definition slanted_vector :: "real list" where
  "slanted_vector = 4 # 3 # replicate 382 0"

definition unit_text :: string where
  "unit_text = ''[1'' @ concat (replicate 383 '',0'') @ '']''"

definition opposite_text :: string where
  "opposite_text = ''[-1'' @ concat (replicate 383 '',0'') @ '']''"

definition slanted_text :: string where
  "slanted_text = ''[4,3'' @ concat (replicate 382 '',0'') @ '']''"

text \<open>
  A world for the match handler: one job with a cached embedding, no model at hand, and
  \<^verbatim>\<open>JSON.parse\<close> on the vector texts that occur.
\<close>

definition demo_env :: env where
  "demo_env =
     \<lparr>select_job = (\<lambda>j. if j = ''j1''
                          then Some \<lparr>j_description_text = Some ''pastry chef'',
                                     j_embedding = Some (EString unit_text)\<rparr>
                          else None),
      select_resumes = (\<lambda>j. Inr []),
      model_run = (\<lambda>t. Inl (Error ''model unavailable'')),
      JSON_parse = (\<lambda>s. if s = unit_text then Inr unit_vector
                          else if s = slanted_text then Inr slanted_vector
                          else if s = opposite_text then Inr opposite_vector
                          else Inl (Error ''Unexpected token'')),
      clock = (\<lambda>r. ''2026-01-01T00:00:00.000Z'')\<rparr>"

definition demo_request :: MatchRequest where
  "demo_request = \<lparr>jobId = ''j1'', threshold = None\<rparr>"

definition pending_resume :: resume_row where
  "pending_resume =
     \<lparr>r_id = ''r1'', r_candidate_name = None, r_file_name = ''ada.pdf'',
      r_resume_text = None, r_embedding = None, r_status = Some ''pending''\<rparr>"

definition completed_uncached_resume :: resume_row where
  "completed_uncached_resume =
     \<lparr>r_id = ''r2'', r_candidate_name = Some ''Bo'', r_file_name = ''bo.pdf'',
      r_resume_text = None, r_embedding = None, r_status = Some ''completed''\<rparr>"

definition completed_cached_resume :: resume_row where
  "completed_cached_resume =
     \<lparr>r_id = ''r3'', r_candidate_name = Some ''Cy'', r_file_name = ''cy.pdf'',
      r_resume_text = None, r_embedding = Some (EString unit_text),
      r_status = Some ''completed''\<rparr>"

text \<open>Four parsed resumes with cached embeddings; \<open>b\<close> and \<open>d\<close> tie.\<close>

definition ranking_resumes :: "resume_row list" where
  "ranking_resumes =
     [\<lparr>r_id = ''a'', r_candidate_name = Some ''Ann'', r_file_name = ''ann.pdf'',
       r_resume_text = Some ''baker'', r_embedding = Some (EString slanted_text),
       r_status = Some ''completed''\<rparr>,
      \<lparr>r_id = ''b'', r_candidate_name = Some ''Ben'', r_file_name = ''ben.pdf'',
       r_resume_text = Some ''pastry chef'', r_embedding = Some (EString unit_text),
       r_status = Some ''completed''\<rparr>,
      \<lparr>r_id = ''c'', r_candidate_name = None, r_file_name = ''cat.pdf'',
       r_resume_text = Some ''physicist'', r_embedding = Some (EString opposite_text),
       r_status = Some ''completed''\<rparr>,
      \<lparr>r_id = ''d'', r_candidate_name = Some ''Dee'', r_file_name = ''dee.pdf'',
       r_resume_text = Some ''pastry chef'', r_embedding = Some (EString unit_text),
       r_status = Some ''completed''\<rparr>]"

text \<open>A parsed resume whose cached embedding points away from the job's.\<close>

definition opposite_resume :: resume_row where
  "opposite_resume =
     \<lparr>r_id = ''c'', r_candidate_name = None, r_file_name = ''cat.pdf'',
      r_resume_text = Some ''physicist'', r_embedding = Some (EString opposite_text),
      r_status = Some ''completed''\<rparr>"

section \<open>Properties\<close>

subsection \<open>What the loop computes\<close>

lemma cosine_loop_sums:
  "i \<le> length vec1 \<Longrightarrow>
   cosine_loop vec1 vec2 i (d, m1, m2) =
     (d + (\<Sum>k = i..<length vec1. vec1 ! k * vec2 ! k),
      m1 + (\<Sum>k = i..<length vec1. vec1 ! k * vec1 ! k),
      m2 + (\<Sum>k = i..<length vec1. vec2 ! k * vec2 ! k))"
proof (induction vec1 vec2 i "(d, m1, m2)" arbitrary: d m1 m2 rule: cosine_loop.induct)
  case (1 vec1 vec2 i d m1 m2)
  show ?case
  proof (cases "i < length vec1")
    case True
    then have "Suc i \<le> length vec1" by simp
    with "1.hyps" True show ?thesis
      by (subst cosine_loop.simps) (simp add: sum.atLeast_Suc_lessThan add.assoc)
  next
    case False
    with "1.prems" show ?thesis by (subst cosine_loop.simps) simp
  qed
qed

lemma sum_squares_nth: "(\<Sum>k<length v. v ! k * v ! k) = (\<Sum>x\<leftarrow>v. (x::real)\<^sup>2)"
proof -
  have "(\<Sum>x\<leftarrow>v. x\<^sup>2) = (\<Sum>k<length v. (v ! k)\<^sup>2)"
    by (simp add: sum_list_sum_nth atLeast0LessThan)
  then show ?thesis by (simp add: power2_eq_square)
qed

lemma cosine_loop_start:
  assumes "length vec1 = length vec2"
  shows "cosine_loop vec1 vec2 0 (0, 0, 0) =
           (dot_product vec1 vec2, (\<Sum>x\<leftarrow>vec1. x\<^sup>2), (\<Sum>x\<leftarrow>vec2. x\<^sup>2))"
proof -
  have "(\<Sum>k<length vec1. vec2 ! k * vec2 ! k) = (\<Sum>x\<leftarrow>vec2. x\<^sup>2)"
    using sum_squares_nth [of vec2] assms by simp
  then show ?thesis
    using cosine_loop_sums [of 0 vec1 vec2 0 0 0] sum_squares_nth [of vec1]
    by (simp add: dot_product_def atLeast0LessThan)
qed

lemma calculateCosineSimilarity_eq:
  assumes "length vec1 = length vec2"
  shows "calculateCosineSimilarity vec1 vec2 =
           (if euclidean_magnitude vec1 = 0 \<or> euclidean_magnitude vec2 = 0 then 0
            else dot_product vec1 vec2 / (euclidean_magnitude vec1 * euclidean_magnitude vec2))"
  using assms
  by (simp add: calculateCosineSimilarity_def cosine_loop_start euclidean_magnitude_def Let_def)

text \<open>
  Claim C4. \<open>calculateCosineSimilarity\<close> returns 0 when the two vectors differ in length,
  returns 0 when either vector has Euclidean magnitude 0, and otherwise returns the dot
  product divided by the product of the two Euclidean magnitudes.
\<close>

theorem calculateCosineSimilarity_contract:
  "(length vec1 \<noteq> length vec2 \<longrightarrow> calculateCosineSimilarity vec1 vec2 = 0) \<and>
   (euclidean_magnitude vec1 = 0 \<or> euclidean_magnitude vec2 = 0 \<longrightarrow>
      calculateCosineSimilarity vec1 vec2 = 0) \<and>
   (length vec1 = length vec2 \<and> euclidean_magnitude vec1 \<noteq> 0 \<and> euclidean_magnitude vec2 \<noteq> 0 \<longrightarrow>
      calculateCosineSimilarity vec1 vec2 =
        dot_product vec1 vec2 / (euclidean_magnitude vec1 * euclidean_magnitude vec2))"
proof (cases "length vec1 = length vec2")
  case True
  then show ?thesis by (simp add: calculateCosineSimilarity_eq)
next
  case False
  then show ?thesis by (simp add: calculateCosineSimilarity_def)
qed

lemma sqrt_25: "sqrt 25 = 5"
  by (rule real_sqrt_unique) simp_all

theorem calculateCosineSimilarity_contract_witness:
  "length [1::real] \<noteq> length [1::real, 2] \<and> calculateCosineSimilarity [1] [1, 2] = 0 \<and>
   euclidean_magnitude [0, 0] = 0 \<and> calculateCosineSimilarity [0, 0] [3, 4] = 0 \<and>
   length [3::real, 4] = length [4::real, 3] \<and>
   euclidean_magnitude [3, 4] \<noteq> 0 \<and> euclidean_magnitude [4, 3] \<noteq> 0 \<and>
   calculateCosineSimilarity [3, 4] [4, 3] = 24 / 25"
  using calculateCosineSimilarity_contract [of "[1]" "[1, 2]"]
    calculateCosineSimilarity_contract [of "[0, 0]" "[3, 4]"]
    calculateCosineSimilarity_contract [of "[3, 4]" "[4, 3]"]
  by (simp add: euclidean_magnitude_def dot_product_def sqrt_25 lessThan_Suc numeral_2_eq_2)

subsection \<open>The example vectors\<close>

lemma dot_product_Cons: "dot_product (a # v) (b # w) = a * b + dot_product v w"
  by (simp add: dot_product_def sum.lessThan_Suc_shift del: sum.lessThan_Suc)

lemma dot_product_zeros: "dot_product (replicate n 0) w = 0"
  by (simp add: dot_product_def)

lemma sum_squares_zeros: "(\<Sum>x\<leftarrow>replicate n (0::real). x\<^sup>2) = 0"
  by (induction n) simp_all

lemma sum_list_zeros: "sum_list (replicate n (0::real)) = 0"
  by (induction n) simp_all

lemma demo_texts_distinct:
  "unit_text \<noteq> []" "slanted_text \<noteq> []" "opposite_text \<noteq> []"
  "unit_text \<noteq> slanted_text" "unit_text \<noteq> opposite_text" "slanted_text \<noteq> unit_text"
  "slanted_text \<noteq> opposite_text" "opposite_text \<noteq> unit_text"
  "opposite_text \<noteq> slanted_text"
  by (simp_all add: unit_text_def slanted_text_def opposite_text_def)

lemma demo_vector_lengths:
  "length unit_vector = 384" "length slanted_vector = 384" "length opposite_vector = 384"
  by (simp_all add: unit_vector_def slanted_vector_def opposite_vector_def)

lemma cosine_unit_same: "calculateCosineSimilarity unit_vector unit_vector = 1"
  by (simp add: calculateCosineSimilarity_eq)
     (simp add: unit_vector_def euclidean_magnitude_def dot_product_Cons dot_product_zeros
        sum_squares_zeros sum_list_zeros)

lemma cosine_unit_opposite: "calculateCosineSimilarity unit_vector opposite_vector = - 1"
  by (simp add: calculateCosineSimilarity_eq demo_vector_lengths)
     (simp add: unit_vector_def opposite_vector_def euclidean_magnitude_def dot_product_Cons
        dot_product_zeros sum_squares_zeros sum_list_zeros)

lemma cosine_unit_slanted: "calculateCosineSimilarity unit_vector slanted_vector = 4 / 5"
  by (simp add: calculateCosineSimilarity_eq demo_vector_lengths)
     (simp add: unit_vector_def slanted_vector_def euclidean_magnitude_def dot_product_Cons
        dot_product_zeros sum_squares_zeros sum_list_zeros sqrt_25)

subsection \<open>The embedding service never raises\<close>

text \<open>
  Claim C8. \<open>generateEmbedding\<close> never raises to its caller: whatever the model call does,
  the result is a vector, and when the model call errors the result is the one of
  \<open>generateFallbackEmbedding\<close> on the same text.
\<close>

theorem generateEmbedding_never_raises:
  "(\<exists>v. generateEmbedding run text = Inr v) \<and>
   (\<forall>err. run text = Inl err \<longrightarrow>
      generateEmbedding run text = Inr (generateFallbackEmbedding text))"
  by (cases "run text") (simp_all add: generateEmbedding_def)

theorem generateEmbedding_never_raises_witness:
  "(\<lambda>t. Inl (Error ''model unavailable'')) ''go'' =
     (Inl (Error ''model unavailable'') :: js_error + real list) \<and>
   generateEmbedding (\<lambda>t. Inl (Error ''model unavailable'')) ''go'' =
     Inr (generateFallbackEmbedding ''go'')"
  using generateEmbedding_never_raises [of "\<lambda>t. Inl (Error ''model unavailable'')" "''go''"]
  by simp

subsection \<open>Unsupported file types\<close>

text \<open>
  Claim C9, as stated: a request whose file type is none of the recognized ones fails with
  the unsupported-file-type error. The handler downloads the file before it looks at the
  type, so when the download fails the caller gets the download's error instead.
\<close>

theorem parse_unsupported_counterexample:
  "fileType png_request \<notin> recognized_file_types \<and>
   fst (Deno_serve_parse (png_env\<lparr>fetch := (\<lambda>url. Inl (Error ''error sending request''))\<rparr>)
          (POST (Inr png_request))) = ParseFailure ''error sending request'' \<and>
   fst (Deno_serve_parse (png_env\<lparr>fetch := (\<lambda>url. Inl (Error ''error sending request''))\<rparr>)
          (POST (Inr png_request))) \<noteq>
     ParseFailure (''Unsupported file type: '' @ fileType png_request)"
  by (simp add: png_request_def png_env_def recognized_file_types_def Deno_serve_parse_def
      parse_run_def)

text \<open>
  Claim C9, amended. A request whose file type is none of the recognized ones is answered
  with the failure response and issues no update of a Job or Resume row; the error is the
  unsupported-file-type error when the download succeeds, and the download's error
  otherwise.
\<close>

theorem parse_unsupported_file_type:
  assumes "fileType rq \<notin> recognized_file_types"
  shows "Deno_serve_parse e (POST (Inr rq)) =
           (ParseFailure
              (case fetch e (fileUrl rq) of
                 Inl err \<Rightarrow> error_message err
               | Inr buf \<Rightarrow> ''Unsupported file type: '' @ fileType rq),
            [])"
proof -
  have ex: "extract_text e (fileType rq) buf =
              Inl (Error (''Unsupported file type: '' @ fileType rq))" for buf
    using assms unfolding extract_text_def recognized_file_types_def by simp
  show ?thesis
    by (cases "fetch e (fileUrl rq)") (simp_all add: Deno_serve_parse_def parse_run_def ex)
qed

theorem parse_unsupported_file_type_witness:
  "fileType png_request \<notin> recognized_file_types \<and>
   Deno_serve_parse png_env (POST (Inr png_request)) =
     (ParseFailure ''Unsupported file type: image/png'', [])"
  using parse_unsupported_file_type [of png_request png_env]
  by (simp add: png_request_def png_env_def recognized_file_types_def)

subsection \<open>Rounds of the match loop that do nothing\<close>

lemma process_resume_guard:
  assumes "\<not> truthy_text (r_resume_text resume)" and "r_status resume \<noteq> Some ''completed''"
  shows "process_resume e jid thr je resume st = (None, st)"
  using assms by (simp add: process_resume_def)

lemma resume_embedding_no_text:
  assumes "\<not> truthy_text (r_resume_text resume)"
  shows "resume_embedding e resume st = (Inr (r_embedding resume), st)"
  using assms by (cases "r_resume_text resume") (simp_all add: resume_embedding_def)

lemma process_resume_no_text_no_cache:
  assumes "\<not> truthy_text (r_resume_text resume)" and "\<not> truthy_embedding (r_embedding resume)"
  shows "process_resume e jid thr je resume st = (None, st)"
  using assms
  by (cases je; cases "r_embedding resume")
     (simp_all add: process_resume_def resume_embedding_no_text)

lemma match_loop_drop_round:
  assumes "\<And>s. process_resume e jid thr je resume s = (None, s)"
  shows "match_loop e jid thr je (pre @ resume # post) st = match_loop e jid thr je (pre @ post) st"
proof (induction pre arbitrary: st)
  case Nil
  show ?case by (simp add: assms)
next
  case (Cons r pre)
  show ?case
  proof (cases "process_resume e jid thr je r st")
    case (Pair err st')
    then show ?thesis by (cases err) (simp_all add: Cons.IH)
  qed
qed

text \<open>The loop reads the model, \<^verbatim>\<open>JSON.parse\<close> and the clock, not the resume query.\<close>

lemma to_vector_select_resumes [simp]:
  "to_vector (e\<lparr>select_resumes := f\<rparr>) v = to_vector e v"
  by (cases v) simp_all

lemma resume_embedding_select_resumes [simp]:
  "resume_embedding (e\<lparr>select_resumes := f\<rparr>) resume st = resume_embedding e resume st"
  by (simp add: resume_embedding_def split: option.splits)

lemma score_resume_select_resumes [simp]:
  "score_resume (e\<lparr>select_resumes := f\<rparr>) jid thr jv rv resume st =
   score_resume e jid thr jv rv resume st"
  by (simp add: score_resume_def split: sum.splits)

lemma process_resume_select_resumes [simp]:
  "process_resume (e\<lparr>select_resumes := f\<rparr>) jid thr je resume st =
   process_resume e jid thr je resume st"
  by (simp add: process_resume_def split: prod.splits sum.splits option.splits)

lemma match_loop_select_resumes [simp]:
  "match_loop (e\<lparr>select_resumes := f\<rparr>) jid thr je rs st = match_loop e jid thr je rs st"
  by (induction rs arbitrary: st) (simp_all split: prod.splits option.splits)

lemma job_embedding_select_resumes [simp]:
  "job_embedding (e\<lparr>select_resumes := f\<rparr>) jid job = job_embedding e jid job"
  by (simp add: job_embedding_def split: option.splits)

lemma length_insert_by [simp]: "length (insert_by cmp x xs) = Suc (length xs)"
  by (induction xs) simp_all

lemma length_Array_sort [simp]: "length (Array_sort cmp xs) = length xs"
  by (induction xs) simp_all

lemma match_run_drop_round:
  assumes noop: "\<And>e jid thr je s. process_resume e jid thr je resume s = (None, s)"
  shows "match_run (e\<lparr>select_resumes := \<lambda>j. Inr (pre @ resume # post)\<rparr>) body =
         (case match_run (e\<lparr>select_resumes := \<lambda>j. Inr (pre @ post)\<rparr>) body of
            (Inr s, effs) \<Rightarrow> (Inr (s\<lparr>resp_total_resumes := Suc (resp_total_resumes s)\<rparr>), effs)
          | (Inl err, effs) \<Rightarrow> (Inl err, effs))"
  by (simp add: match_run_def Let_def match_loop_drop_round [OF noop]
      split: sum.splits option.splits prod.splits)

lemma serve_match_drop_round:
  assumes noop: "\<And>e jid thr je s. process_resume e jid thr je resume s = (None, s)"
  shows "Deno_serve_match (e\<lparr>select_resumes := \<lambda>j. Inr (pre @ resume # post)\<rparr>) req =
         (case Deno_serve_match (e\<lparr>select_resumes := \<lambda>j. Inr (pre @ post)\<rparr>) req of
            (Success s, effs) \<Rightarrow>
              (Success (s\<lparr>resp_total_resumes := Suc (resp_total_resumes s)\<rparr>), effs)
          | other \<Rightarrow> other)"
proof (cases req)
  case OPTIONS
  then show ?thesis by (simp add: Deno_serve_match_def)
next
  case (POST body)
  then show ?thesis
    by (simp add: Deno_serve_match_def match_run_drop_round [OF noop]
        split: sum.splits prod.splits)
qed

lemma snd_serve_match_drop_round:
  assumes noop: "\<And>e jid thr je s. process_resume e jid thr je resume s = (None, s)"
  shows "snd (Deno_serve_match (e\<lparr>select_resumes := \<lambda>j. Inr (pre @ resume # post)\<rparr>) req) =
         snd (Deno_serve_match (e\<lparr>select_resumes := \<lambda>j. Inr (pre @ post)\<rparr>) req)"
  by (simp add: serve_match_drop_round [OF noop] split: prod.splits match_response.splits)

lemma demo_run_empty:
  "Deno_serve_match (demo_env\<lparr>select_resumes := \<lambda>j. Inr []\<rparr>) (POST (Inr demo_request)) =
     (Success \<lparr>resp_job_id = ''j1'', resp_total_resumes = 0, resp_matched_resumes = 0,
               resp_threshold = 0.6, resp_matches = []\<rparr>, [])"
  by (simp add: Deno_serve_match_def match_run_def demo_env_def demo_request_def
      job_embedding_def demo_texts_distinct)

text \<open>
  Claim C5. A resume without source text whose status is not \<open>completed\<close> is skipped: its
  round of the loop raises nothing and leaves the state as it was, so no embedding is
  computed and no MatchRecord written for it, and a run with the resume differs from the
  run without it in nothing but \<open>total_resumes\<close>: same effects, same matches list, same
  \<open>matched_resumes\<close>, same failure if the run fails.
\<close>

theorem skip_unparsed_resume:
  assumes "\<not> truthy_text (r_resume_text resume)" and "r_status resume \<noteq> Some ''completed''"
  shows "process_resume e jid thr je resume st = (None, st) \<and>
         Deno_serve_match (e\<lparr>select_resumes := \<lambda>j. Inr (pre @ resume # post)\<rparr>) req =
           (case Deno_serve_match (e\<lparr>select_resumes := \<lambda>j. Inr (pre @ post)\<rparr>) req of
              (Success s, effs) \<Rightarrow>
                (Success (s\<lparr>resp_total_resumes := Suc (resp_total_resumes s)\<rparr>), effs)
            | other \<Rightarrow> other)"
  using process_resume_guard [OF assms]
    serve_match_drop_round [OF process_resume_guard [OF assms]]
  by simp

theorem skip_unparsed_resume_witness:
  "\<not> truthy_text (r_resume_text pending_resume) \<and>
   r_status pending_resume \<noteq> Some ''completed'' \<and>
   Deno_serve_match (demo_env\<lparr>select_resumes := \<lambda>j. Inr [pending_resume]\<rparr>)
       (POST (Inr demo_request)) =
     (Success \<lparr>resp_job_id = ''j1'', resp_total_resumes = 1, resp_matched_resumes = 0,
               resp_threshold = 0.6, resp_matches = []\<rparr>, [])"
proof -
  have h: "\<not> truthy_text (r_resume_text pending_resume)"
      "r_status pending_resume \<noteq> Some ''completed''"
    by (simp_all add: pending_resume_def)
  from skip_unparsed_resume [OF h, where e = demo_env and pre = "[]" and post = "[]"
      and req = "POST (Inr demo_request)"]
  show ?thesis using h by (simp add: demo_run_empty)
qed

subsection \<open>Resumes without source text\<close>

text \<open>
  Claim C2, as stated: a resume without source text never gets a MatchRecord, whatever
  its status and whether or not it carries a cached embedding. The guard of the loop lets
  a resume with status \<open>completed\<close> through, and its cached embedding is then scored.
\<close>

theorem absent_text_upsert_counterexample:
  "r_resume_text completed_cached_resume = None \<and>
   upserts (snd (Deno_serve_match
                   (demo_env\<lparr>select_resumes := \<lambda>j. Inr [completed_cached_resume]\<rparr>)
                   (POST (Inr demo_request)))) =
     [\<lparr>job_id = ''j1'', resume_id = ''r3'', similarity_score = 1, is_match = True,
       details_threshold = 0.6, details_processed_at = ''2026-01-01T00:00:00.000Z''\<rparr>]"
  by (simp add: Deno_serve_match_def match_run_def demo_env_def demo_request_def
      job_embedding_def completed_cached_resume_def process_resume_def
      resume_embedding_def score_resume_def cosine_unit_same demo_texts_distinct Let_def)

text \<open>
  Claim C2, amended. If the resume's source text is absent and its status is not
  \<open>completed\<close> or it carries no cached embedding, no MatchRecord is created or updated
  for it: its round of the loop issues no upsert, and the run with the resume issues the
  same upserts as the run without it.
\<close>

theorem absent_text_no_upsert:
  assumes "\<not> truthy_text (r_resume_text resume)"
    and "r_status resume \<noteq> Some ''completed'' \<or> \<not> truthy_embedding (r_embedding resume)"
  shows "upserts (effects (snd (process_resume e jid thr je resume st))) = upserts (effects st) \<and>
         upserts (snd (Deno_serve_match
                         (e\<lparr>select_resumes := \<lambda>j. Inr (pre @ resume # post)\<rparr>) req)) =
         upserts (snd (Deno_serve_match
                         (e\<lparr>select_resumes := \<lambda>j. Inr (pre @ post)\<rparr>) req))"
proof -
  have noop: "process_resume e jid thr je resume s = (None, s)" for e jid thr je s
    using assms process_resume_guard process_resume_no_text_no_cache by blast
  show ?thesis
    using noop snd_serve_match_drop_round [OF noop] by simp
qed

theorem absent_text_no_upsert_witness:
  "\<not> truthy_text (r_resume_text completed_uncached_resume) \<and>
   r_status completed_uncached_resume = Some ''completed'' \<and>
   \<not> truthy_embedding (r_embedding completed_uncached_resume) \<and>
   upserts (snd (Deno_serve_match
                   (demo_env\<lparr>select_resumes := \<lambda>j. Inr [completed_uncached_resume]\<rparr>)
                   (POST (Inr demo_request)))) = []"
proof -
  have h: "\<not> truthy_text (r_resume_text completed_uncached_resume)"
      "r_status completed_uncached_resume \<noteq> Some ''completed'' \<or>
       \<not> truthy_embedding (r_embedding completed_uncached_resume)"
    by (simp_all add: completed_uncached_resume_def)
  have "r_status completed_uncached_resume = Some ''completed''"
      "\<not> truthy_embedding (r_embedding completed_uncached_resume)"
    by (simp_all add: completed_uncached_resume_def)
  with absent_text_no_upsert [OF h, where e = demo_env and pre = "[]" and post = "[]"
      and req = "POST (Inr demo_request)"]
  show ?thesis using h(1) by (simp add: demo_run_empty)
qed

subsection \<open>The ranked match list\<close>

lemma upserts_append [simp]: "upserts (xs @ ys) = upserts xs @ upserts ys"
  by (induction xs rule: upserts.induct) simp_all

lemma set_insert_by [simp]: "set (insert_by cmp x xs) = insert x (set xs)"
  by (induction xs) auto

lemma set_Array_sort [simp]: "set (Array_sort cmp xs) = set xs"
  by (induction xs) simp_all

lemma sorted_insert_by:
  assumes "sorted_wrt (\<lambda>a b. f a \<ge> f b) xs"
  shows "sorted_wrt (\<lambda>a b. f a \<ge> f b) (insert_by (\<lambda>a b. f b - f a) x xs)"
  using assms by (induction xs) auto

lemma sorted_Array_sort:
  "sorted_wrt (\<lambda>a b. f a \<ge> f b) (Array_sort (\<lambda>a b. f b - f a) xs)"
  by (induction xs) (simp_all add: sorted_insert_by)

lemma filter_insert_by:
  "filter (\<lambda>m. f m = v) (insert_by (\<lambda>a b. f b - f a) x xs) =
     (if f x = v then x # filter (\<lambda>m. f m = v) xs else filter (\<lambda>m. f m = v) xs)"
  by (induction xs) auto

lemma filter_Array_sort:
  "filter (\<lambda>m. f m = v) (Array_sort (\<lambda>a b. f b - f a) xs) = filter (\<lambda>m. f m = (v::real)) xs"
  by (induction xs) (simp_all add: filter_insert_by)

lemma resume_embedding_upserts:
  "resume_embedding e resume st = (res, st') \<Longrightarrow>
   upserts (effects st') = upserts (effects st) \<and> matches st' = matches st"
  by (auto simp: resume_embedding_def split: option.splits if_splits sum.splits)

lemma process_resume_scored:
  assumes "process_resume e jid thr je r st = (None, st')"
  shows "upserts (effects st') =
           upserts (effects st) @ map (upsert_row e jid thr) (scored_resumes e je [r]) \<and>
         matches st' =
           matches st @ map entry_of (filter (\<lambda>(r, sc). sc \<ge> thr) (scored_resumes e je [r]))"
  using assms
  by (auto simp: process_resume_def resume_embedding_def score_resume_def
      resume_similarity_def scored_resumes_def upsert_row_def entry_of_def Let_def
      split: option.splits sum.splits if_splits prod.splits)

lemma scored_resumes_Cons:
  "scored_resumes e je (r # rs) = scored_resumes e je [r] @ scored_resumes e je rs"
  by (simp add: scored_resumes_def)

lemma match_loop_scored:
  assumes "match_loop e jid thr je rs st = (None, st')"
  shows "upserts (effects st') =
           upserts (effects st) @ map (upsert_row e jid thr) (scored_resumes e je rs) \<and>
         matches st' =
           matches st @ map entry_of (filter (\<lambda>(r, sc). sc \<ge> thr) (scored_resumes e je rs))"
  using assms
proof (induction rs arbitrary: st)
  case Nil
  then show ?case by (simp add: scored_resumes_def)
next
  case (Cons r rs)
  obtain x st1 where pr: "process_resume e jid thr je r st = (x, st1)"
    by (cases "process_resume e jid thr je r st")
  with Cons.prems have x: "x = None" and rest: "match_loop e jid thr je rs st1 = (None, st')"
    by (cases x; simp)+
  from process_resume_scored [OF pr [unfolded x]] Cons.IH [OF rest]
  show ?case by (simp add: scored_resumes_Cons [of e je r rs])
qed

lemma job_embedding_upserts:
  "job_embedding e jid job = (res, effs) \<Longrightarrow> upserts effs = []"
  by (auto simp: job_embedding_def split: option.splits if_splits sum.splits)


lemma match_run_Success:
  assumes "match_run e body = (Inr s, effs)"
  obtains rq job effs0 je resumes st where
    "body = Inr rq" and "select_job e (jobId rq) = Some job"
    and "job_embedding e (jobId rq) job = (Inr je, effs0)"
    and "select_resumes e (jobId rq) = Inr resumes"
    and "match_loop e (jobId rq) (resp_threshold s) je resumes \<lparr>effects = effs0, matches = []\<rparr> =
           (None, st)"
    and "effs = effects st"
    and "resp_matches s = Array_sort (\<lambda>a b. m_similarity_score b - m_similarity_score a) (matches st)"
    and "resp_threshold s = (case threshold rq of None \<Rightarrow> 0.6 | Some t \<Rightarrow> t)"
    and "resp_matched_resumes s = length (resp_matches s)"
    and "resp_total_resumes s = length resumes"
  using assms
  by (auto simp: match_run_def Let_def split: sum.splits option.splits prod.splits)

text \<open>
  Claim C6. In a successful run the threshold is the request's (0.6 when it gives none),
  one row is upserted for each scored resume, in load order, and the matches list is the
  comparator sort of the entries of the scored resumes whose similarity reaches the
  threshold, taken in load order: it is sorted by similarity score descending, and for
  every score value its entries with that score are exactly those entries, in load order,
  so ties keep the order in which the resumes were loaded and processed.
\<close>

theorem matches_ranked:
  assumes "Deno_serve_match e req = (Success s, effs)"
  shows "\<exists>rq job jobEmbedding effs0 resumes.
           req = POST (Inr rq) \<and>
           select_job e (jobId rq) = Some job \<and>
           job_embedding e (jobId rq) job = (Inr jobEmbedding, effs0) \<and>
           select_resumes e (jobId rq) = Inr resumes \<and>
           resp_threshold s = (case threshold rq of None \<Rightarrow> 0.6 | Some t \<Rightarrow> t) \<and>
           upserts effs =
             map (upsert_row e (jobId rq) (resp_threshold s))
               (scored_resumes e jobEmbedding resumes) \<and>
           resp_matches s =
             Array_sort (\<lambda>a b. m_similarity_score b - m_similarity_score a)
               (map entry_of (filter (\<lambda>(r, sc). sc \<ge> resp_threshold s)
                                (scored_resumes e jobEmbedding resumes))) \<and>
           sorted_wrt (\<lambda>a b. m_similarity_score a \<ge> m_similarity_score b) (resp_matches s) \<and>
           (\<forall>v. filter (\<lambda>m. m_similarity_score m = v) (resp_matches s) =
                 filter (\<lambda>m. m_similarity_score m = v)
                   (map entry_of (filter (\<lambda>(r, sc). sc \<ge> resp_threshold s)
                                    (scored_resumes e jobEmbedding resumes)))) \<and>
           resp_matched_resumes s = length (resp_matches s) \<and>
           resp_total_resumes s = length resumes"
proof -
  from assms obtain body where req: "req = POST body" and run: "match_run e body = (Inr s, effs)"
    by (auto simp: Deno_serve_match_def split: http_request.splits sum.splits prod.splits)
  from run obtain rq job effs0 je resumes st where
    body: "body = Inr rq" and job: "select_job e (jobId rq) = Some job"
    and je: "job_embedding e (jobId rq) job = (Inr je, effs0)"
    and rs: "select_resumes e (jobId rq) = Inr resumes"
    and loop: "match_loop e (jobId rq) (resp_threshold s) je resumes
                 \<lparr>effects = effs0, matches = []\<rparr> = (None, st)"
    and effs: "effs = effects st"
    and sorted: "resp_matches s =
                   Array_sort (\<lambda>a b. m_similarity_score b - m_similarity_score a) (matches st)"
    and thr: "resp_threshold s = (case threshold rq of None \<Rightarrow> 0.6 | Some t \<Rightarrow> t)"
    and len: "resp_matched_resumes s = length (resp_matches s)"
    and tot: "resp_total_resumes s = length resumes"
    by (rule match_run_Success)
  let ?entries = "map entry_of (filter (\<lambda>(r, sc). sc \<ge> resp_threshold s)
                                  (scored_resumes e je resumes))"
  from match_loop_scored [OF loop] job_embedding_upserts [OF je]
  have ups: "upserts effs =
               map (upsert_row e (jobId rq) (resp_threshold s)) (scored_resumes e je resumes)"
    and ms: "matches st = ?entries"
    by (simp_all add: effs)
  have eq: "resp_matches s =
              Array_sort (\<lambda>a b. m_similarity_score b - m_similarity_score a) ?entries"
    by (simp only: sorted ms)
  have srt: "sorted_wrt (\<lambda>a b. m_similarity_score a \<ge> m_similarity_score b) (resp_matches s)"
    unfolding sorted by (rule sorted_Array_sort)
  have stable: "\<forall>v. filter (\<lambda>m. m_similarity_score m = v) (resp_matches s) =
                     filter (\<lambda>m. m_similarity_score m = v) ?entries"
    unfolding eq by (simp only: filter_Array_sort) simp
  from req body job je rs thr ups eq srt stable len tot show ?thesis
    by (intro exI [of _ rq] exI [of _ job] exI [of _ je] exI [of _ effs0] exI [of _ resumes]
        conjI) simp_all
qed

lemma ranking_run:
  "\<exists>s effs. Deno_serve_match (demo_env\<lparr>select_resumes := \<lambda>j. Inr ranking_resumes\<rparr>)
       (POST (Inr demo_request)) = (Success s, effs) \<and>
     map (\<lambda>m. (m_resume_id m, m_similarity_score m)) (resp_matches s) =
       [(''b'', 1), (''d'', 1), (''a'', 4 / 5)]"
  by (simp add: Deno_serve_match_def match_run_def demo_env_def demo_request_def
      job_embedding_def ranking_resumes_def process_resume_def
      resume_embedding_def score_resume_def cosine_unit_same cosine_unit_opposite
      cosine_unit_slanted demo_texts_distinct Let_def)

theorem matches_ranked_witness:
  "\<exists>s effs. Deno_serve_match (demo_env\<lparr>select_resumes := \<lambda>j. Inr ranking_resumes\<rparr>)
       (POST (Inr demo_request)) = (Success s, effs) \<and>
     map (\<lambda>m. (m_resume_id m, m_similarity_score m)) (resp_matches s) =
       [(''b'', 1), (''d'', 1), (''a'', 4 / 5)] \<and>
     sorted_wrt (\<lambda>a b. m_similarity_score a \<ge> m_similarity_score b) (resp_matches s) \<and>
     resp_threshold s = 0.6 \<and>
     resp_matched_resumes s = 3"
proof -
  from ranking_run obtain s effs where
    run: "Deno_serve_match (demo_env\<lparr>select_resumes := \<lambda>j. Inr ranking_resumes\<rparr>)
            (POST (Inr demo_request)) = (Success s, effs)"
    and ms: "map (\<lambda>m. (m_resume_id m, m_similarity_score m)) (resp_matches s) =
               [(''b'', 1), (''d'', 1), (''a'', 4 / 5)]"
    by (elim exE conjE)
  have "length (map (\<lambda>m. (m_resume_id m, m_similarity_score m)) (resp_matches s)) = 3"
    unfolding ms by simp
  then have len: "length (resp_matches s) = 3" by simp
  from matches_ranked [OF run] obtain rq where
    rq: "POST (Inr demo_request) = POST (Inr rq)"
    and thr: "resp_threshold s = (case threshold rq of None \<Rightarrow> 0.6 | Some t \<Rightarrow> t)"
    and srt: "sorted_wrt (\<lambda>a b. m_similarity_score a \<ge> m_similarity_score b) (resp_matches s)"
    and cnt: "resp_matched_resumes s = length (resp_matches s)"
    by blast
  from rq have "rq = demo_request" by simp
  with thr have thr': "resp_threshold s = 0.6" by (simp add: demo_request_def)
  from cnt len have cnt': "resp_matched_resumes s = 3" by simp
  from run ms srt thr' cnt' show ?thesis by (intro exI conjI)
qed

subsection \<open>The range of the similarity score\<close>

lemma cauchy_step:
  fixes d m1 m2 a b :: real
  assumes "d\<^sup>2 \<le> m1 * m2" and "0 \<le> m1" and "0 \<le> m2"
  shows "(d + a * b)\<^sup>2 \<le> (m1 + a * a) * (m2 + b * b)"
proof -
  have "(2 * d * a * b)\<^sup>2 = 4 * d\<^sup>2 * (a\<^sup>2 * b\<^sup>2)"
    by (simp add: power2_eq_square)
  also have "\<dots> \<le> 4 * (m1 * m2) * (a\<^sup>2 * b\<^sup>2)"
    using assms(1) by (intro mult_right_mono mult_left_mono) simp_all
  also have "\<dots> = 4 * (m1 * b\<^sup>2) * (m2 * a\<^sup>2)" by simp
  also have "\<dots> \<le> (m1 * b\<^sup>2 + m2 * a\<^sup>2)\<^sup>2"
  proof -
    have "0 \<le> (m1 * b\<^sup>2 - m2 * a\<^sup>2)\<^sup>2" by simp
    then show ?thesis by (simp add: power2_eq_square algebra_simps)
  qed
  finally have "(2 * d * a * b)\<^sup>2 \<le> (m1 * b\<^sup>2 + m2 * a\<^sup>2)\<^sup>2" .
  moreover have "0 \<le> m1 * b\<^sup>2 + m2 * a\<^sup>2" using assms(2,3) by simp
  ultimately have "2 * d * a * b \<le> m1 * b\<^sup>2 + m2 * a\<^sup>2"
    by (rule power2_le_imp_le)
  with assms(1) show ?thesis by (simp add: power2_eq_square algebra_simps)
qed

lemma cosine_loop_cauchy:
  assumes "cosine_loop vec1 vec2 i (d, m1, m2) = (d', m1', m2')"
    and "d\<^sup>2 \<le> m1 * m2" and "0 \<le> m1" and "0 \<le> m2"
  shows "d'\<^sup>2 \<le> m1' * m2' \<and> 0 \<le> m1' \<and> 0 \<le> m2'"
  using assms
proof (induction vec1 vec2 i "(d, m1, m2)" arbitrary: d m1 m2 rule: cosine_loop.induct)
  case (1 vec1 vec2 i d m1 m2)
  show ?case
  proof (cases "i < length vec1")
    case True
    with "1.prems"(1) have
      "cosine_loop vec1 vec2 (i + 1)
         (d + vec1 ! i * vec2 ! i, m1 + vec1 ! i * vec1 ! i, m2 + vec2 ! i * vec2 ! i) =
       (d', m1', m2')"
      by (subst (asm) cosine_loop.simps) simp
    moreover have "(d + vec1 ! i * vec2 ! i)\<^sup>2 \<le>
                     (m1 + vec1 ! i * vec1 ! i) * (m2 + vec2 ! i * vec2 ! i)"
      using "1.prems"(2-4) by (rule cauchy_step)
    moreover have "0 \<le> m1 + vec1 ! i * vec1 ! i" "0 \<le> m2 + vec2 ! i * vec2 ! i"
      using "1.prems"(3,4) by simp_all
    ultimately show ?thesis using "1.hyps" [OF True] by blast
  next
    case False
    with "1.prems" show ?thesis by (subst (asm) cosine_loop.simps) simp
  qed
qed

lemma calculateCosineSimilarity_range:
  "- 1 \<le> calculateCosineSimilarity vec1 vec2 \<and> calculateCosineSimilarity vec1 vec2 \<le> 1"
proof (cases "length vec1 = length vec2")
  case False
  then show ?thesis by (simp add: calculateCosineSimilarity_def)
next
  case True
  obtain d m1 m2 where loop: "cosine_loop vec1 vec2 0 (0, 0, 0) = (d, m1, m2)"
    by (cases "cosine_loop vec1 vec2 0 (0, 0, 0)")
  from cosine_loop_cauchy [OF loop] have cs: "d\<^sup>2 \<le> m1 * m2" and nn: "0 \<le> m1" "0 \<le> m2"
    by simp_all
  show ?thesis
  proof (cases "sqrt m1 = 0 \<or> sqrt m2 = 0")
    case True
    with \<open>length vec1 = length vec2\<close> loop show ?thesis
      by (auto simp: calculateCosineSimilarity_def)
  next
    case False
    with nn have pos: "0 < sqrt m1 * sqrt m2" by simp
    have "\<bar>d\<bar> = sqrt (d\<^sup>2)" by simp
    also have "\<dots> \<le> sqrt (m1 * m2)" using cs by (simp only: real_sqrt_le_iff)
    also have "\<dots> = sqrt m1 * sqrt m2" by (rule real_sqrt_mult)
    finally have "\<bar>d\<bar> \<le> sqrt m1 * sqrt m2" .
    then have "- (sqrt m1 * sqrt m2) \<le> d" and "d \<le> sqrt m1 * sqrt m2" by linarith+
    then have "- 1 \<le> d / (sqrt m1 * sqrt m2) \<and> d / (sqrt m1 * sqrt m2) \<le> 1"
      using pos by (simp add: pos_le_divide_eq pos_divide_le_eq)
    moreover have "calculateCosineSimilarity vec1 vec2 = d / (sqrt m1 * sqrt m2)"
      using False \<open>length vec1 = length vec2\<close> loop
      by (simp add: calculateCosineSimilarity_def)
    ultimately show ?thesis by simp
  qed
qed

lemma sum_squares_nonneg: "0 \<le> (\<Sum>x\<leftarrow>v. (x::real)\<^sup>2)"
  by (induction v) simp_all

lemma dot_product_nonneg:
  assumes "length vec1 = length vec2" and "\<forall>x \<in> set vec1. 0 \<le> x" and "\<forall>x \<in> set vec2. 0 \<le> x"
  shows "0 \<le> dot_product vec1 vec2"
  unfolding dot_product_def using assms
  by (intro sum_nonneg mult_nonneg_nonneg) simp_all

lemma calculateCosineSimilarity_nonneg:
  assumes "\<forall>x \<in> set vec1. 0 \<le> x" and "\<forall>x \<in> set vec2. 0 \<le> x"
  shows "0 \<le> calculateCosineSimilarity vec1 vec2"
proof (cases "length vec1 = length vec2")
  case False
  then show ?thesis by (simp add: calculateCosineSimilarity_def)
next
  case True
  have "0 \<le> euclidean_magnitude vec1" "0 \<le> euclidean_magnitude vec2"
    by (simp_all add: euclidean_magnitude_def sum_squares_nonneg)
  with dot_product_nonneg [OF True assms] show ?thesis
    by (simp add: calculateCosineSimilarity_eq [OF True])
qed

lemma score_resume_range:
  assumes "score_resume e jid thr jv rv resume st = (res, st')"
    and "\<forall>row \<in> set (upserts (effects st)). - 1 \<le> similarity_score row \<and> similarity_score row \<le> 1"
  shows "\<forall>row \<in> set (upserts (effects st')). - 1 \<le> similarity_score row \<and> similarity_score row \<le> 1"
  using assms calculateCosineSimilarity_range
  by (auto simp: score_resume_def Let_def split: sum.splits if_splits)

lemma process_resume_range:
  assumes "process_resume e jid thr je resume st = (res, st')"
    and "\<forall>row \<in> set (upserts (effects st)). - 1 \<le> similarity_score row \<and> similarity_score row \<le> 1"
  shows "\<forall>row \<in> set (upserts (effects st')). - 1 \<le> similarity_score row \<and> similarity_score row \<le> 1"
proof (cases "\<not> truthy_text (r_resume_text resume) \<and> r_status resume \<noteq> Some ''completed''")
  case True
  with assms show ?thesis by (simp add: process_resume_def)
next
  case False
  obtain r1 st1 where re: "resume_embedding e resume st = (r1, st1)"
    by (cases "resume_embedding e resume st")
  from resume_embedding_upserts [OF re] assms(2)
  have 1: "\<forall>row \<in> set (upserts (effects st1)).
             - 1 \<le> similarity_score row \<and> similarity_score row \<le> 1"
    by simp
  show ?thesis
    using False assms(1) re 1 score_resume_range [OF _ 1]
    by (auto simp: process_resume_def split: sum.splits option.splits if_splits)
qed

lemma match_loop_range:
  assumes "match_loop e jid thr je rs st = (res, st')"
    and "\<forall>row \<in> set (upserts (effects st)). - 1 \<le> similarity_score row \<and> similarity_score row \<le> 1"
  shows "\<forall>row \<in> set (upserts (effects st')). - 1 \<le> similarity_score row \<and> similarity_score row \<le> 1"
  using assms
proof (induction rs arbitrary: st)
  case Nil
  then show ?case by simp
next
  case (Cons r rs)
  obtain x st1 where pr: "process_resume e jid thr je r st = (x, st1)"
    by (cases "process_resume e jid thr je r st")
  note 1 = process_resume_range [OF pr Cons.prems(2)]
  show ?case
  proof (cases x)
    case None
    with Cons.prems(1) pr have "match_loop e jid thr je rs st1 = (res, st')" by simp
    from Cons.IH [OF this 1] show ?thesis .
  next
    case (Some err)
    with Cons.prems(1) pr have "st' = st1" by simp
    with 1 show ?thesis by simp
  qed
qed

lemma match_run_range:
  assumes "match_run e body = (res, effs)"
  shows "\<forall>row \<in> set (upserts effs). - 1 \<le> similarity_score row \<and> similarity_score row \<le> 1"
proof -
  have start: "\<forall>row \<in> set (upserts (effects \<lparr>effects = effs0, matches = []\<rparr>)).
                 - 1 \<le> similarity_score row \<and> similarity_score row \<le> 1"
    if "job_embedding e jid job = (r, effs0)" for jid job r effs0
    using job_embedding_upserts [OF that] by simp
  show ?thesis
    using assms
    by (auto simp: match_run_def Let_def job_embedding_upserts
        split: sum.splits option.splits prod.splits
        dest!: match_loop_range [OF _ start])
qed

text \<open>
  Claim C1. The similarity stored as \<open>similarity_score\<close> in an upserted MatchRecord lies
  in the interval from 0 to 1. The code computes the cosine without a clamp: every stored
  score lies between -1 and 1 (\<open>match_run_range\<close>), and between 0 and 1 when no component
  of the two vectors is negative (\<open>calculateCosineSimilarity_nonneg\<close>), but a resume
  whose embedding points away from the job's is stored with the score -1.
\<close>

theorem negative_similarity_stored:
  "map similarity_score
     (upserts (snd (Deno_serve_match
                      (demo_env\<lparr>select_resumes := \<lambda>j. Inr [opposite_resume]\<rparr>)
                      (POST (Inr demo_request))))) = [- 1]"
  by (simp add: Deno_serve_match_def match_run_def demo_env_def demo_request_def
      job_embedding_def opposite_resume_def process_resume_def resume_embedding_def
      score_resume_def cosine_unit_opposite demo_texts_distinct Let_def)

subsection \<open>The fallback embedding\<close>

lemma length_char_loop [simp]: "length (char_loop word i j embedding) = length embedding"
proof (induction word i j embedding rule: char_loop.induct)
  case (1 word i j embedding)
  show ?case
  proof (cases "j < length word")
    case True
    with "1.IH" show ?thesis by (subst char_loop.simps) simp
  next
    case False
    then show ?thesis by (subst char_loop.simps) simp
  qed
qed

lemma length_word_loop [simp]: "length (word_loop words i embedding) = length embedding"
proof (induction words i embedding rule: word_loop.induct)
  case (1 words i embedding)
  show ?case
  proof (cases "i < length words \<and> i < length embedding")
    case True
    with "1.IH" show ?thesis by (subst word_loop.simps) simp
  next
    case False
    then show ?thesis by (subst word_loop.simps) auto
  qed
qed

lemma char_loop_nth:
  assumes "k < length embedding" and "j \<le> length word"
  shows "char_loop word i j embedding ! k =
           embedding ! k +
           (\<Sum>jj = j..<length word.
              if (i + jj) mod length embedding = k then real (charCode (word ! jj)) / 1000 else 0)"
  using assms
proof (induction word i j embedding rule: char_loop.induct)
  case (1 word i j embedding)
  let ?n = "length embedding"
  show ?case
  proof (cases "j < length word")
    case True
    let ?e = "embedding[(i + j) mod ?n := embedding ! ((i + j) mod ?n) + real (charCode (word ! j)) / 1000]"
    from "1.prems"(1) have "0 < ?n" by (cases embedding) simp_all
    then have pos: "(i + j) mod ?n < ?n" by (rule mod_less_divisor)
    have "char_loop word i j embedding ! k = char_loop word i (j + 1) ?e ! k"
      using True by (subst char_loop.simps) simp
    also have "\<dots> = ?e ! k +
        (\<Sum>jj = j + 1..<length word.
           if (i + jj) mod ?n = k then real (charCode (word ! jj)) / 1000 else 0)"
      using "1.IH" [OF True] "1.prems"(1) True by simp
    also have "?e ! k = embedding ! k +
        (if (i + j) mod ?n = k then real (charCode (word ! j)) / 1000 else 0)"
      using pos "1.prems"(1) by (simp add: nth_list_update)
    finally show ?thesis
      using True by (simp add: sum.atLeast_Suc_lessThan add.assoc)
  next
    case False
    with "1.prems" show ?thesis by (subst char_loop.simps) simp
  qed
qed

lemma word_loop_nth:
  assumes "k < length embedding" and "i \<le> min (length words) (length embedding)"
  shows "word_loop words i embedding ! k =
           embedding ! k +
           (\<Sum>ii = i..<min (length words) (length embedding). \<Sum>jj<length (words ! ii).
              if (ii + jj) mod length embedding = k
              then real (charCode (words ! ii ! jj)) / 1000 else 0)"
  using assms
proof (induction words i embedding rule: word_loop.induct)
  case (1 words i embedding)
  let ?n = "length embedding"
  show ?case
  proof (cases "i < length words \<and> i < ?n")
    case True
    let ?e = "char_loop (words ! i) i 0 embedding"
    have "word_loop words i embedding ! k = word_loop words (i + 1) ?e ! k"
      using True by (subst word_loop.simps) simp
    also have "\<dots> = ?e ! k +
        (\<Sum>ii = i + 1..<min (length words) ?n. \<Sum>jj<length (words ! ii).
           if (ii + jj) mod ?n = k then real (charCode (words ! ii ! jj)) / 1000 else 0)"
      using "1.IH" [OF True] "1.prems"(1) True by simp
    also have "?e ! k = embedding ! k +
        (\<Sum>jj<length (words ! i).
           if (i + jj) mod ?n = k then real (charCode (words ! i ! jj)) / 1000 else 0)"
      using char_loop_nth [OF "1.prems"(1), of 0 "words ! i" i] by (simp add: atLeast0LessThan)
    finally show ?thesis
      using True by (simp add: sum.atLeast_Suc_lessThan add.assoc)
  next
    case False
    with "1.prems" have "i = min (length words) ?n" by auto
    with False show ?thesis by (subst word_loop.simps) auto
  qed
qed

lemma fallback_accumulate_eq:
  "fallback_accumulate text =
     map (spec_slot (split_whitespace (toLowerCase text))) [0..<384]"
proof (rule nth_equalityI)
  show "length (fallback_accumulate text) =
          length (map (spec_slot (split_whitespace (toLowerCase text))) [0..<384])"
    by (simp add: fallback_accumulate_def)
next
  fix k assume "k < length (fallback_accumulate text)"
  then have k: "k < 384" by (simp add: fallback_accumulate_def)
  then show "fallback_accumulate text ! k =
               map (spec_slot (split_whitespace (toLowerCase text))) [0..<384] ! k"
    using word_loop_nth [of k "replicate 384 0" 0 "split_whitespace (toLowerCase text)"]
    by (simp add: fallback_accumulate_def spec_slot_def atLeast0LessThan)
qed


lemma foldl_sum_squares:
  "foldl (\<lambda>sum val. sum + val * val) a v = a + (\<Sum>x\<leftarrow>v. (x::real)\<^sup>2)"
  by (induction v arbitrary: a) (simp_all add: power2_eq_square)

lemma sum_squares_zero_iff: "(\<Sum>x\<leftarrow>v. (x::real)\<^sup>2) = 0 \<longleftrightarrow> (\<forall>x \<in> set v. x = 0)"
proof (induction v)
  case Nil
  show ?case by simp
next
  case (Cons a v)
  have "a\<^sup>2 + (\<Sum>x\<leftarrow>v. x\<^sup>2) = 0 \<longleftrightarrow> a\<^sup>2 = 0 \<and> (\<Sum>x\<leftarrow>v. x\<^sup>2) = 0"
    using sum_squares_nonneg [of v] by (intro add_nonneg_eq_0_iff) simp_all
  with Cons.IH show ?case by simp
qed

lemma magnitude_zero_iff: "euclidean_magnitude v = 0 \<longleftrightarrow> (\<forall>x \<in> set v. x = 0)"
  by (simp add: euclidean_magnitude_def sum_squares_zero_iff)

lemma magnitude_nonneg: "0 \<le> euclidean_magnitude v"
  by (simp add: euclidean_magnitude_def sum_squares_nonneg)

lemma generateFallbackEmbedding_magnitude:
  "generateFallbackEmbedding text =
     (let embedding = fallback_accumulate text; magnitude = euclidean_magnitude embedding
      in map (\<lambda>val. if magnitude > 0 then val / magnitude else 0) embedding)"
  by (simp add: generateFallbackEmbedding_def foldl_sum_squares euclidean_magnitude_def)

lemma fallback_refines_spec:
  "generateFallbackEmbedding text = spec_fallback_embedding (toLowerCase text)"
proof -
  let ?v = "fallback_accumulate text"
  let ?m = "euclidean_magnitude ?v"
  have v: "map (spec_slot (split_whitespace (toLowerCase text))) [0..<384] = ?v"
    by (simp only: fallback_accumulate_eq)
  show ?thesis
  proof (cases "?m = 0")
    case True
    then have "\<forall>x \<in> set ?v. x = 0" by (simp only: magnitude_zero_iff)
    then have "map (\<lambda>val. 0) ?v = ?v" by (simp add: map_idI)
    with True show ?thesis
      by (simp add: generateFallbackEmbedding_magnitude spec_fallback_embedding_def v Let_def)
  next
    case False
    with magnitude_nonneg [of ?v] have "0 < ?m" by simp
    with False show ?thesis
      by (simp add: generateFallbackEmbedding_magnitude spec_fallback_embedding_def v Let_def)
  qed
qed

lemma length_generateFallbackEmbedding: "length (generateFallbackEmbedding text) = 384"
  by (simp add: generateFallbackEmbedding_def fallback_accumulate_def Let_def)

lemma sum_list_divide: "(\<Sum>x\<leftarrow>v. f x / c) = (\<Sum>x\<leftarrow>v. f x) / (c::real)"
  by (induction v) (simp_all add: add_divide_distrib)

lemma normalised_magnitude:
  assumes "euclidean_magnitude v \<noteq> 0"
  shows "euclidean_magnitude (map (\<lambda>x. x / euclidean_magnitude v) v) = 1"
proof -
  let ?m = "euclidean_magnitude v"
  let ?s = "\<Sum>x\<leftarrow>v. x\<^sup>2"
  have m2: "?m\<^sup>2 = ?s"
    by (simp add: euclidean_magnitude_def sum_squares_nonneg)
  have "(\<Sum>x\<leftarrow>map (\<lambda>x. x / ?m) v. x\<^sup>2) = (\<Sum>x\<leftarrow>v. x\<^sup>2 / ?m\<^sup>2)"
    by (simp add: comp_def power_divide)
  also have "\<dots> = ?s / ?m\<^sup>2"
    by (rule sum_list_divide)
  also have "\<dots> = 1"
  proof -
    from assms have "?m\<^sup>2 \<noteq> 0" by simp
    then have "?m\<^sup>2 / ?m\<^sup>2 = 1" by (rule divide_self)
    then show ?thesis by (simp only: m2)
  qed
  finally show ?thesis by (simp add: euclidean_magnitude_def)
qed

text \<open>
  Claim C7. The vector returned by \<open>generateFallbackEmbedding\<close> has exactly 384
  components and Euclidean norm 1, except when every accumulated component is 0, in which
  case it is the zero vector.
\<close>

theorem fallback_unit_normalised:
  "length (generateFallbackEmbedding text) = 384 \<and>
   (if \<forall>x \<in> set (fallback_accumulate text). x = 0
    then generateFallbackEmbedding text = replicate 384 0
    else euclidean_magnitude (generateFallbackEmbedding text) = 1)"
proof -
  let ?v = "fallback_accumulate text"
  let ?m = "euclidean_magnitude ?v"
  have len: "length ?v = 384" by (simp add: fallback_accumulate_def)
  show ?thesis
  proof (cases "\<forall>x \<in> set ?v. x = 0")
    case True
    then have "?m = 0" by (simp only: magnitude_zero_iff)
    then have "generateFallbackEmbedding text = map (\<lambda>val. 0) ?v"
      by (simp add: generateFallbackEmbedding_magnitude Let_def)
    also have "\<dots> = replicate 384 0" using len by (simp add: map_replicate_const)
    finally show ?thesis using True by (simp add: length_generateFallbackEmbedding)
  next
    case False
    then have nz: "?m \<noteq> 0" by (simp only: magnitude_zero_iff) simp
    with magnitude_nonneg [of ?v] have "0 < ?m" by simp
    then have "generateFallbackEmbedding text = map (\<lambda>x. x / ?m) ?v"
      by (simp add: generateFallbackEmbedding_magnitude Let_def)
    with normalised_magnitude [OF nz]
    have "euclidean_magnitude (generateFallbackEmbedding text) = 1" by simp
    with False show ?thesis
      by (auto simp: length_generateFallbackEmbedding)
  qed
qed

lemma accumulate_empty: "fallback_accumulate [] = replicate 384 0"
proof -
  have "spec_slot [[]] = (\<lambda>k. 0)" by (rule ext) (simp add: spec_slot_def)
  then have "map (spec_slot [[]]) [0..<384] = replicate (length [0..<384::nat]) 0"
    by (simp only: map_replicate_const)
  then show ?thesis
    by (simp add: fallback_accumulate_eq toLowerCase_def split_whitespace_def)
qed

lemma accumulate_go_first: "fallback_accumulate ''go'' ! 0 = 103 / 1000"
proof -
  have low: "toLowerCase ''go'' = ''go''"
    by (simp add: toLowerCase_def toLowerCase_char_def charCode_def Let_def)
  have spl: "split_whitespace ''go'' = [''go'']"
    by (simp add: split_whitespace_def is_whitespace_def charCode_def)
  have "fallback_accumulate ''go'' ! 0 = spec_slot [''go''] 0"
    by (simp add: fallback_accumulate_eq low spl)
  also have "\<dots> = 103 / 1000"
    by (simp add: spec_slot_def charCode_def lessThan_Suc numeral_2_eq_2)
  finally show ?thesis .
qed

theorem fallback_unit_normalised_witness:
  "fallback_accumulate ''go'' ! 0 = 103 / 1000 \<and>
   length (generateFallbackEmbedding ''go'') = 384 \<and>
   euclidean_magnitude (generateFallbackEmbedding ''go'') = 1 \<and>
   fallback_accumulate [] = replicate 384 0 \<and>
   generateFallbackEmbedding [] = replicate 384 0"
proof -
  have "fallback_accumulate ''go'' ! 0 \<in> set (fallback_accumulate ''go'')"
    by (rule nth_mem) (simp add: fallback_accumulate_def)
  then have nz: "\<not> (\<forall>x \<in> set (fallback_accumulate ''go''). x = 0)"
    using accumulate_go_first by force
  have z: "\<forall>x \<in> set (fallback_accumulate []). x = 0"
    by (simp add: accumulate_empty)
  from fallback_unit_normalised [of "''go''"] fallback_unit_normalised [of "[]"] nz z
  show ?thesis by (simp add: accumulate_go_first accumulate_empty)
qed

subsection \<open>The fallback embedding and the reference algorithm\<close>

lemma spec_fallback_nth:
  assumes "k < 384"
  shows "spec_fallback_embedding text ! k =
           (let slot = spec_slot (split_whitespace text) k;
                m = euclidean_magnitude (map (spec_slot (split_whitespace text)) [0..<384])
            in if m = 0 then slot else slot / m)"
  using assms by (simp add: spec_fallback_embedding_def Let_def)

lemma split_Aa: "split_whitespace ''Aa'' = [''Aa'']" "split_whitespace ''aa'' = [''aa'']"
  by (simp_all add: split_whitespace_def is_whitespace_def charCode_def)

lemma char_of_97: "char_of (97::nat) = CHR ''a''"
proof -
  have "char_of (of_char (CHR ''a'') :: nat) = CHR ''a''" by (rule char_of_char)
  then show ?thesis by simp
qed

lemma lower_Aa: "toLowerCase ''Aa'' = ''aa''"
  by (simp add: toLowerCase_def toLowerCase_char_def charCode_def Let_def char_of_97)

lemma slots_Aa:
  "spec_slot [''Aa''] 0 = 65 / 1000" "spec_slot [''Aa''] (Suc 0) = 97 / 1000"
  "spec_slot [''aa''] 0 = 97 / 1000" "spec_slot [''aa''] (Suc 0) = 97 / 1000"
  by (simp_all add: spec_slot_def charCode_def lessThan_Suc numeral_2_eq_2)

text \<open>
  Claim C3, as stated: \<open>generateFallbackEmbedding\<close> computes exactly the reference
  algorithm on the text. The function lowercases the text first, so on a text with a
  capital letter the two differ: for \<open>Aa\<close> the function fills slots 0 and 1 with the
  same value, the reference algorithm with 0.065 and 0.097.
\<close>

theorem fallback_spec_counterexample:
  "generateFallbackEmbedding ''Aa'' \<noteq> spec_fallback_embedding ''Aa''"
proof
  assume eq: "generateFallbackEmbedding ''Aa'' = spec_fallback_embedding ''Aa''"
  have "generateFallbackEmbedding ''Aa'' ! 0 = generateFallbackEmbedding ''Aa'' ! 1"
    by (simp add: fallback_refines_spec lower_Aa spec_fallback_nth split_Aa slots_Aa Let_def)
  then have "spec_fallback_embedding ''Aa'' ! 0 = spec_fallback_embedding ''Aa'' ! 1"
    by (simp only: eq)
  then show False
    by (simp add: spec_fallback_nth split_Aa slots_Aa Let_def divide_simps split: if_splits)
qed

text \<open>
  Claim C3, amended. For every text, \<open>generateFallbackEmbedding\<close> computes exactly the
  reference algorithm on the lowercased text: lowercase the text, split it on whitespace
  into words, add for each word at index \<open>i\<close> below 384 and each character at index
  \<open>j\<close> of it the character code divided by 1000 to slot \<open>(i + j) mod 384\<close>, then
  divide every component by the Euclidean magnitude, leaving all components 0 when the
  magnitude is 0.
\<close>

theorem fallback_matches_reference:
  "generateFallbackEmbedding text = spec_fallback_embedding (toLowerCase text)"
  by (rule fallback_refines_spec)

subsection \<open>Letter case\<close>

lemma toLowerCase_char_variant:
  assumes "ascii_case_variant a b"
  shows "toLowerCase_char a = toLowerCase_char b"
proof -
  have up: "toLowerCase_char x = toLowerCase_char y"
    if "65 \<le> charCode x" "charCode x \<le> 90" "charCode y = charCode x + 32" for x y
  proof -
    have "toLowerCase_char x = char_of (charCode y)"
      using that by (simp add: toLowerCase_char_def Let_def)
    also have "\<dots> = y" by (simp add: charCode_def)
    also have "\<dots> = toLowerCase_char y"
      using that by (simp add: toLowerCase_char_def Let_def)
    finally show ?thesis .
  qed
  from assms consider "a = b"
    | "65 \<le> charCode a" "charCode a \<le> 90" "charCode b = charCode a + 32"
    | "65 \<le> charCode b" "charCode b \<le> 90" "charCode a = charCode b + 32"
    unfolding ascii_case_variant_def by blast
  then show ?thesis
  proof cases
    case 1
    then show ?thesis by simp
  next
    case 2
    then show ?thesis by (rule up)
  next
    case 3
    then have "toLowerCase_char b = toLowerCase_char a" by (rule up)
    then show ?thesis by simp
  qed
qed

lemma toLowerCase_variant:
  assumes "differ_only_in_ascii_case s t"
  shows "toLowerCase s = toLowerCase t"
  using assms unfolding differ_only_in_ascii_case_def toLowerCase_def
  by (induction rule: list_all2_induct) (simp_all add: toLowerCase_char_variant)

text \<open>
  Claim C10. \<open>generateFallbackEmbedding\<close> is case-insensitive: two texts that differ
  only in ASCII letter case have the same output vector.
\<close>

theorem fallback_case_insensitive:
  assumes "differ_only_in_ascii_case s t"
  shows "generateFallbackEmbedding s = generateFallbackEmbedding t"
  using toLowerCase_variant [OF assms]
  by (simp add: generateFallbackEmbedding_def fallback_accumulate_def)

theorem fallback_case_insensitive_witness:
  "differ_only_in_ascii_case ''Go Lang'' ''gO lANG'' \<and>
   generateFallbackEmbedding ''Go Lang'' = generateFallbackEmbedding ''gO lANG''"
proof -
  have h: "differ_only_in_ascii_case ''Go Lang'' ''gO lANG''"
    by (simp add: differ_only_in_ascii_case_def ascii_case_variant_def charCode_def)
  from fallback_case_insensitive [OF h] h show ?thesis by simp
qed

end
